theory Spec2Isabelle
  imports Main
begin

section \<open>Python values\<close>

text \<open>
  The exceptions of the Python source are values of \<open>pyerror\<close>; a call that can raise
  returns \<open>pyerror + 'a\<close> paired with the state it leaves behind, since a Python
  exception does not undo the assignments made before it.
\<close>

datatype pyerror =
    AttributeError
  | IndexError
  | KeyError
  | TypeError
  | ValueError
  | OtherError string

text \<open>
  The values a row attribute can hold. \<open>PObj s r ic b\<close> is an application object:
  \<open>s\<close> is what \<^verbatim>\<open>str()\<close> gives for it, \<open>r\<close> what \<^verbatim>\<open>repr()\<close> gives, \<open>ic\<close> its
  \<^verbatim>\<open>icon\<close> attribute when it has one, and \<open>b\<close> is present when the object has a
  \<^verbatim>\<open>bind\<close> method (a deferred resource such as an icon), naming the resource that the
  factory resolves. \<^verbatim>\<open>None\<close>, integers, strings and tuples have neither attribute.
\<close>

datatype pyval =
    PNone
  | PInt int
  | PStr string
  | PTuple "pyval list"
  | PObj string string "pyval option" "string option"

subsection \<open>The builtin \<^verbatim>\<open>str\<close>\<close>

fun digits :: "nat \<Rightarrow> string" where
  "digits n =
     (if n < 10 then [''0123456789'' ! n]
      else digits (n div 10) @ [''0123456789'' ! (n mod 10)])"

declare digits.simps [simp del]

definition str_int :: "int \<Rightarrow> string" where
  "str_int i = (if i < 0 then CHR ''-'' # digits (nat (- i)) else digits (nat i))"

definition hex2 :: "nat \<Rightarrow> string" where
  "hex2 n = [''0123456789abcdef'' ! (n div 16), ''0123456789abcdef'' ! (n mod 16)]"

text \<open>
  \<^verbatim>\<open>repr\<close> of a string, with a character read as the code point of its number
  (0 to 255): the quote is \<^verbatim>\<open>'\<close> unless the text has a \<^verbatim>\<open>'\<close> and no \<^verbatim>\<open>"\<close>; the
  quote and the backslash are escaped, tab, newline and carriage return are written
  \<^verbatim>\<open>\t\<close>, \<^verbatim>\<open>\n\<close>, \<^verbatim>\<open>\r\<close>, and every other non-printable code point as \<^verbatim>\<open>\xhh\<close>.
\<close>

definition printable :: "char \<Rightarrow> bool" where
  "printable c =
     (let n = (of_char c :: nat)
      in (32 \<le> n \<and> n < 127) \<or> (161 \<le> n \<and> n \<noteq> 173))"

definition escape_char :: "char \<Rightarrow> char \<Rightarrow> string" where
  "escape_char q c =
     (if c = q \<or> c = CHR 0x5C then [CHR 0x5C, c]
      else if c = CHR 0x09 then [CHR 0x5C, CHR ''t'']
      else if c = CHR 0x0A then [CHR 0x5C, CHR ''n'']
      else if c = CHR 0x0D then [CHR 0x5C, CHR ''r'']
      else if printable c then [c]
      else [CHR 0x5C, CHR ''x''] @ hex2 (of_char c))"

definition repr_str :: "string \<Rightarrow> string" where
  "repr_str s =
     (let q = (if CHR 0x27 \<in> set s \<and> CHR 0x22 \<notin> set s then CHR 0x22 else CHR 0x27)
      in [q] @ concat (map (escape_char q) s) @ [q])"

fun join :: "string \<Rightarrow> string list \<Rightarrow> string" where
  "join sep [] = []"
| "join sep [x] = x"
| "join sep (x # y # ys) = x @ sep @ join sep (y # ys)"

fun py_repr :: "pyval \<Rightarrow> string" where
  "py_repr PNone = ''None''"
| "py_repr (PInt i) = str_int i"
| "py_repr (PStr s) = repr_str s"
| "py_repr (PTuple vs) =
     (case vs of
        [v] \<Rightarrow> ''('' @ py_repr v @ '',)''
      | _ \<Rightarrow> ''('' @ join '', '' (map py_repr vs) @ '')'')"
| "py_repr (PObj s r ic b) = r"

definition py_str :: "pyval \<Rightarrow> string" where
  "py_str v = (case v of PStr s \<Rightarrow> s | PObj s r ic b \<Rightarrow> s | _ \<Rightarrow> py_repr v)"

subsection \<open>Indexing a Python list\<close>

text \<open>
  \<^verbatim>\<open>xs[i]\<close> for the data of the interface: \<^verbatim>\<open>None\<close> cannot be indexed (TypeError), an
  index from 0 up to the length reads from the front, a negative one down to minus the
  length reads from the back, and any other raises IndexError.
\<close>

definition getitem :: "'a list option \<Rightarrow> int \<Rightarrow> pyerror + 'a" where
  "getitem d i =
     (case d of
        None \<Rightarrow> Inl TypeError
      | Some xs \<Rightarrow>
          if 0 \<le> i \<and> i < int (length xs) then Inr (xs ! nat i)
          else if i < 0 \<and> - int (length xs) \<le> i then Inr (xs ! nat (int (length xs) + i))
          else Inl IndexError)"

section \<open>The objects the adapter works on\<close>

text \<open>
  A data row is an application object. \<open>row_attrs\<close> holds the attributes the
  application gave it (one per accessor, none guaranteed present); \<open>row_impl\<close> is the
  attribute \<^verbatim>\<open>_impl\<close> that the adapter attaches: the per-row dictionary from column
  identifier to the row's render object (none while the row has no such attribute).
\<close>

record row =
  row_attrs :: "string \<rightharpoonup> pyval"
  row_impl :: "(string \<rightharpoonup> nat) option"

text \<open>The \<^verbatim>\<open>attrs\<close> dictionary of a TogaData render object: its two entries.\<close>

record attrs =
  label :: string
  icon :: pyval

datatype nsstring = NSString string

definition at :: "string \<Rightarrow> nsstring" where
  "at s = NSString s"

fun str_ns :: "nsstring \<Rightarrow> string" where
  "str_ns (NSString s) = s"

datatype cell = TogaIconCell

text \<open>
  An NSTableColumn. \<open>column_object\<close> is the identity of the object: two columns made
  by two allocations differ in it, whatever their identifier and header.
\<close>

record table_column =
  column_object :: nat
  col_identifier :: nsstring
  dataCell :: "cell option"
  headerCell_stringValue :: string

datatype dimension = at_least int | exactly int

datatype selection_value = SelNone | SelRow nat | SelRows "nat list"

text \<open>
  The application-level Table widget, as the adapter reads and writes it. \<open>data\<close> is
  the sequence of row objects (each named by its address in the row store), or absent.
  \<open>missing_value\<close> is \<open>Inr v\<close> when a missing value \<open>v\<close> is configured; \<open>Inl (m, v)\<close>
  when reading it raises ValueError with the arguments \<open>(m, v)\<close>. \<open>on_select\<close> is the
  registered handler (named), or none. \<open>factory\<close> gives, for a resource with a
  \<^verbatim>\<open>bind\<close> method, the outcome of \<^verbatim>\<open>bind(factory)\<close>.
\<close>

record interface =
  data :: "nat list option"
  headings :: "string list"
  accessors :: "string list"
  multiple_select :: bool
  missing_value :: "(string \<times> pyval) + pyval"
  on_select :: "string option"
  selection :: selection_value
  factory :: "string \<Rightarrow> pyerror + pyval"
  MIN_WIDTH :: int
  MIN_HEIGHT :: int
  intrinsic_width :: dimension
  intrinsic_height :: dimension

datatype native_call = ReloadData | SizeToFit | ScrollRowToVisible int

datatype border = NSNoBorder | NSBezelBorder

datatype autoresizing = NoAutoresizing | Uniform

text \<open>
  The adapter (class \<^verbatim>\<open>Table\<close>) with its native table view (class \<^verbatim>\<open>TogaTable\<close>),
  the scroll view around it and the objects they reach:
  \<^item> \<open>row_objects\<close>: the store of row objects, by address;
  \<^item> \<open>toga_data\<close>: the \<^verbatim>\<open>attrs\<close> of each TogaData object, by address (none while it has
    not been assigned); \<open>next_toga_data\<close> is the address the next allocation gives;
  \<^item> \<open>columns\<close>, \<open>column_identifiers\<close>: the adapter's two attributes;
  \<^item> \<open>tableColumns\<close>: the columns of the native view; \<open>next_column\<close>: the identity the
    next NSTableColumn gets;
  \<^item> \<open>selectedRowIndexes\<close>: the members of the view's NSIndexSet (order and repetition
    in the list mean nothing);
  \<^item> \<open>native_calls\<close>: the calls \<^verbatim>\<open>reloadData\<close>, \<^verbatim>\<open>sizeToFit\<close> and
    \<^verbatim>\<open>scrollRowToVisible\<close> received by the view, oldest first;
  \<^item> \<open>printed\<close>: what was printed: the message, and the row and identifier it was
    formatted with;
  \<^item> \<open>on_select_calls\<close>: the calls made to the selection handler: the handler and
    its \<^verbatim>\<open>row\<close> argument;
  \<^item> \<open>repr_impl\<close>: the text Python gives for a row's \<^verbatim>\<open>_impl\<close> dictionary (it shows
    the addresses of the render objects, so it is the runtime's to say).
\<close>

record table =
  interface :: interface
  row_objects :: "nat \<Rightarrow> row"
  toga_data :: "nat \<rightharpoonup> attrs"
  next_toga_data :: nat
  columns :: "table_column list"
  column_identifiers :: "string \<rightharpoonup> nsstring"
  tableColumns :: "table_column list"
  next_column :: nat
  selectedRowIndexes :: "nat list"
  native_calls :: "native_call list"
  printed :: "(string \<times> int \<times> string) list"
  on_select_calls :: "(string \<times> nat option) list"
  repr_impl :: "(string \<rightharpoonup> nat) \<Rightarrow> string"
  hasVerticalScroller :: bool
  hasHorizontalScroller :: bool
  autohidesScrollers :: bool
  borderType :: border
  columnAutoresizingStyle :: autoresizing
  allowsMultipleSelection :: bool

section \<open>TogaTable: the data source\<close>

definition numberOfRowsInTableView :: "table \<Rightarrow> int" where
  "numberOfRowsInTableView t =
     (case data (interface t) of
        None \<Rightarrow> 0
      | Some rs \<Rightarrow> if rs \<noteq> [] then int (length rs) else 0)"

section \<open>Table: forwarding mutations\<close>

definition reloadData :: "table \<Rightarrow> table" where
  "reloadData t = t\<lparr>native_calls := native_calls t @ [ReloadData]\<rparr>"

definition sizeToFit :: "table \<Rightarrow> table" where
  "sizeToFit t = t\<lparr>native_calls := native_calls t @ [SizeToFit]\<rparr>"

definition scrollRowToVisible :: "int \<Rightarrow> table \<Rightarrow> table" where
  "scrollRowToVisible r t = t\<lparr>native_calls := native_calls t @ [ScrollRowToVisible r]\<rparr>"

definition change_source :: "'src \<Rightarrow> table \<Rightarrow> table" where
  "change_source source t = reloadData t"

definition insert_item :: "int \<Rightarrow> 'item \<Rightarrow> table \<Rightarrow> table" where
  "insert_item index item t = reloadData t"

definition change :: "'item \<Rightarrow> table \<Rightarrow> table" where
  "change item t = reloadData t"

definition remove :: "'item \<Rightarrow> table \<Rightarrow> table" where
  "remove item t = reloadData t"

definition clear :: "table \<Rightarrow> table" where
  "clear t = reloadData t"

definition set_on_select :: "'handler \<Rightarrow> table \<Rightarrow> table" where
  "set_on_select handler t = t"

definition scroll_to_row :: "int \<Rightarrow> table \<Rightarrow> table" where
  "scroll_to_row r t = scrollRowToVisible r t"

definition rehint :: "table \<Rightarrow> table" where
  "rehint t =
     (let i1 = (interface t)\<lparr>intrinsic_width := at_least (MIN_WIDTH (interface t))\<rparr>;
          i2 = i1\<lparr>intrinsic_height := at_least (MIN_HEIGHT i1)\<rparr>
      in t\<lparr>interface := i2\<rparr>)"

section \<open>Table: column management\<close>

text \<open>
  \<^verbatim>\<open>_add_column\<close>: the identifier is cached under the accessor, a new column is made
  for it, added to the native view and appended to \<open>columns\<close>; the column then gets
  its cell and its header text. The column is one object seen from both lists, so the
  model builds it first with what the two later assignments give it.
\<close>

definition add_column_internal :: "string \<Rightarrow> string \<Rightarrow> table \<Rightarrow> table" where
  "add_column_internal heading accessor t =
     (let column_identifier = at accessor;
          column = \<lparr>column_object = next_column t, col_identifier = column_identifier,
                    dataCell = Some TogaIconCell, headerCell_stringValue = heading\<rparr>
      in t\<lparr>column_identifiers := (column_identifiers t)(accessor \<mapsto> column_identifier),
            next_column := Suc (next_column t),
            tableColumns := tableColumns t @ [column],
            columns := columns t @ [column]\<rparr>)"

definition add_column :: "string \<Rightarrow> string \<Rightarrow> table \<Rightarrow> table" where
  "add_column heading accessor t = sizeToFit (add_column_internal heading accessor t)"

text \<open>
  \<^verbatim>\<open>tableColumnWithIdentifier\<close>: the first column of the view with that identifier,
  or nil.
\<close>

definition tableColumnWithIdentifier :: "nsstring \<Rightarrow> table \<Rightarrow> table_column option" where
  "tableColumnWithIdentifier ident t = find (\<lambda>c. col_identifier c = ident) (tableColumns t)"

text \<open>\<^verbatim>\<open>removeTableColumn\<close>: the view drops that column; nil drops nothing.\<close>

definition removeTableColumn :: "table_column option \<Rightarrow> table \<Rightarrow> table" where
  "removeTableColumn column t =
     (case column of
        None \<Rightarrow> t
      | Some c \<Rightarrow> t\<lparr>tableColumns := remove1 c (tableColumns t)\<rparr>)"

text \<open>
  \<^verbatim>\<open>remove_column\<close>. The dictionary lookup raises KeyError for an accessor that is not
  a key, before anything is changed; \<^verbatim>\<open>list.remove\<close> raises ValueError when the column
  is not in the list, after the view has been changed.
\<close>

definition remove_column :: "string \<Rightarrow> table \<Rightarrow> (pyerror + unit) \<times> table" where
  "remove_column accessor t =
     (case column_identifiers t accessor of
        None \<Rightarrow> (Inl KeyError, t)
      | Some column_identifier \<Rightarrow>
          (let column = tableColumnWithIdentifier column_identifier t;
               t1 = removeTableColumn column t
           in case column of
                Some c \<Rightarrow>
                  if c \<in> set (columns t1)
                  then (Inr (),
                        sizeToFit (t1\<lparr>columns := remove1 c (columns t1),
                                      column_identifiers := (column_identifiers t1)(accessor := None)\<rparr>))
                  else (Inl ValueError, t1)
              | None \<Rightarrow> (Inl ValueError, t1)))"

text \<open>
  \<^verbatim>\<open>create\<close>, on the table \<open>t\<close> that holds the interface: the scroll view and a new
  table view (no column, no selection, no call received) are configured, and one
  column is added for each heading and accessor. Making the view its own delegate and
  data source, embedding it in the scroll view and adding the layout constraints change
  nothing that the model holds.
\<close>

definition create :: "table \<Rightarrow> table" where
  "create t =
     (let t1 = t\<lparr>hasVerticalScroller := True, hasHorizontalScroller := False,
                 autohidesScrollers := False, borderType := NSBezelBorder,
                 columnAutoresizingStyle := Uniform,
                 allowsMultipleSelection := multiple_select (interface t),
                 tableColumns := [], selectedRowIndexes := [], native_calls := [],
                 columns := [], column_identifiers := Map.empty\<rparr>
      in fold (\<lambda>(heading, accessor). add_column_internal heading accessor)
           (zip (headings (interface t)) (accessors (interface t))) t1)"

section \<open>TogaTable: the value of a cell\<close>

text \<open>
  Lines 27 to 33: the row's \<^verbatim>\<open>_impl\<close> dictionary, made empty and attached when the
  row has none. The argument is the address of the row object.
\<close>

definition obtain_impl :: "nat \<Rightarrow> table \<Rightarrow> table" where
  "obtain_impl a t =
     (case row_impl (row_objects t a) of
        Some d \<Rightarrow> t
      | None \<Rightarrow> t\<lparr>row_objects := (row_objects t)(a := (row_objects t a)\<lparr>row_impl := Some Map.empty\<rparr>)\<rparr>)"

text \<open>
  Lines 37 to 44: the TogaData cached under the identifier, or a new one (with no
  \<^verbatim>\<open>attrs\<close> yet) stored under it. \<^verbatim>\<open>data\<close> and \<^verbatim>\<open>data_row._impl\<close> are the same
  dictionary, so the two stores of the source are one.
\<close>

definition obtain_datum :: "nat \<Rightarrow> string \<Rightarrow> table \<Rightarrow> nat \<times> table" where
  "obtain_datum a ident t =
     (let d = (case row_impl (row_objects t a) of Some d \<Rightarrow> d | None \<Rightarrow> Map.empty)
      in case d ident of
           Some datum \<Rightarrow> (datum, t)
         | None \<Rightarrow>
             (let datum = next_toga_data t
              in (datum,
                  t\<lparr>next_toga_data := Suc datum,
                    toga_data := (toga_data t)(datum := None),
                    row_objects :=
                      (row_objects t)(a := (row_objects t a)\<lparr>row_impl := Some (d(ident \<mapsto> datum))\<rparr>)\<rparr>)))"

text \<open>
  \<^verbatim>\<open>getattr(data_row, name)\<close>. The name \<^verbatim>\<open>_impl\<close> is the adapter's own slot on the row:
  reading it gives the dictionary, an object with no \<^verbatim>\<open>icon\<close> attribute.
\<close>

definition getattr_row :: "((string \<rightharpoonup> nat) \<Rightarrow> string) \<Rightarrow> row \<Rightarrow> string \<Rightarrow> pyerror + pyval" where
  "getattr_row rp r name =
     (if name = ''_impl''
      then (case row_impl r of
              None \<Rightarrow> Inl AttributeError
            | Some d \<Rightarrow> Inr (PObj (rp d) (rp d) None None))
      else (case row_attrs r name of None \<Rightarrow> Inl AttributeError | Some v \<Rightarrow> Inr v))"

text \<open>
  Lines 47 to 56: the value for the column. When the row has no such attribute the
  missing value is used; when reading the missing value raises ValueError, the second
  argument of the exception is used and the first is printed, formatted with the row
  index and the identifier.
\<close>

definition column_value :: "int \<Rightarrow> string \<Rightarrow> nat \<Rightarrow> table \<Rightarrow> pyval \<times> table" where
  "column_value row ident a t =
     (case getattr_row (repr_impl t) (row_objects t a) ident of
        Inr v \<Rightarrow> (v, t)
      | Inl e \<Rightarrow>
          (case missing_value (interface t) of
             Inr v \<Rightarrow> (v, t)
           | Inl (message, v) \<Rightarrow> (v, t\<lparr>printed := printed t @ [(message, row, ident)]\<rparr>)))"

text \<open>
  \<^verbatim>\<open>value.icon.bind(factory)\<close>: AttributeError when the value has no \<^verbatim>\<open>icon\<close>
  attribute or the icon has no \<^verbatim>\<open>bind\<close> method, otherwise what binding gives.
\<close>

definition bind_icon :: "pyval \<Rightarrow> (string \<Rightarrow> pyerror + pyval) \<Rightarrow> pyerror + pyval" where
  "bind_icon v f =
     (case v of
        PObj s r (Some ic) b \<Rightarrow>
          (case ic of
             PObj s' r' ic' (Some resource) \<Rightarrow> f resource
           | _ \<Rightarrow> Inl AttributeError)
      | _ \<Rightarrow> Inl AttributeError)"

text \<open>
  Lines 60 to 68: the icon and the value to show. A tuple is unpacked into the two
  (ValueError unless it has exactly two elements); for any other value the icon is
  bound, and AttributeError there, and only it, gives the icon \<^verbatim>\<open>None\<close>.
\<close>

definition icon_and_value ::
  "pyval \<Rightarrow> (string \<Rightarrow> pyerror + pyval) \<Rightarrow> pyerror + (pyval \<times> pyval)" where
  "icon_and_value v f =
     (case v of
        PTuple vs \<Rightarrow> (case vs of [ic, v'] \<Rightarrow> Inr (ic, v') | _ \<Rightarrow> Inl ValueError)
      | _ \<Rightarrow>
          (case bind_icon v f of
             Inr ic \<Rightarrow> Inr (ic, v)
           | Inl AttributeError \<Rightarrow> Inr (PNone, v)
           | Inl e \<Rightarrow> Inl e))"

text \<open>
  Lines 27 to 56 together, for the row object at address \<open>a\<close>: the render object and
  the value resolved for the column.
\<close>

definition resolve :: "table_column \<Rightarrow> int \<Rightarrow> nat \<Rightarrow> table \<Rightarrow> (nat \<times> pyval) \<times> table" where
  "resolve column row a t =
     (let t1 = obtain_impl a t;
          ident = str_ns (col_identifier column);
          (datum, t2) = obtain_datum a ident t1;
          (v, t3) = column_value row ident a t2
      in ((datum, v), t3))"

text \<open>
  \<^verbatim>\<open>tableView_objectValueForTableColumn_row_\<close>: the result is the address of the
  TogaData object returned.
\<close>

definition tableView_objectValueForTableColumn_row ::
  "table_column \<Rightarrow> int \<Rightarrow> table \<Rightarrow> (pyerror + nat) \<times> table" where
  "tableView_objectValueForTableColumn_row column row t =
     (case getitem (data (interface t)) row of
        Inl e \<Rightarrow> (Inl e, t)
      | Inr data_row \<Rightarrow>
          (let ((datum, v), t3) = resolve column row data_row t
           in case icon_and_value v (factory (interface t3)) of
                Inl e \<Rightarrow> (Inl e, t3)
              | Inr (ic, v') \<Rightarrow>
                  (Inr datum,
                   t3\<lparr>toga_data := (toga_data t3)(datum \<mapsto> \<lparr>label = py_str v', icon = ic\<rparr>)\<rparr>)))"

text \<open>
  What a row's cache holds for an identifier, \<^verbatim>\<open>data_row._impl.get(ident)\<close>: no object
  also when the row has no \<^verbatim>\<open>_impl\<close>.
\<close>

definition cached :: "table \<Rightarrow> nat \<Rightarrow> string \<Rightarrow> nat option" where
  "cached t a ident = (case row_impl (row_objects t a) of None \<Rightarrow> None | Some c \<Rightarrow> c ident)"

section \<open>TogaTable: the delegate\<close>

definition selectionShouldChangeInTableView :: "table \<Rightarrow> bool" where
  "selectionShouldChangeInTableView t = True"

subsection \<open>NSIndexSet\<close>

definition NSNotFound :: nat where
  "NSNotFound = 9223372036854775807"

definition index_count :: "nat list \<Rightarrow> nat" where
  "index_count ix = length (remdups ix)"

definition firstIndex :: "nat list \<Rightarrow> nat" where
  "firstIndex ix = (case sort (remdups ix) of [] \<Rightarrow> NSNotFound | i # _ \<Rightarrow> i)"

definition indexGreaterThanIndex :: "nat list \<Rightarrow> nat \<Rightarrow> nat" where
  "indexGreaterThanIndex ix i =
     (case sort (remdups (filter (\<lambda>j. i < j) ix)) of [] \<Rightarrow> NSNotFound | j # _ \<Rightarrow> j)"

subsection \<open>The selection handler\<close>

text \<open>
  The loop of lines 88 to 90, with \<open>n\<close> iterations left: the row at the current index
  is appended, and the index moves to the next selected one.
\<close>

fun selected_rows ::
  "nat list option \<Rightarrow> nat list \<Rightarrow> nat \<Rightarrow> nat \<Rightarrow> nat list \<Rightarrow> pyerror + nat list" where
  "selected_rows d ix 0 current_index sel = Inr sel"
| "selected_rows d ix (Suc n) current_index sel =
     (case getitem d (int current_index) of
        Inl e \<Rightarrow> Inl e
      | Inr r \<Rightarrow> selected_rows d ix n (indexGreaterThanIndex ix current_index) (sel @ [r]))"

text \<open>The notification: what the handler reads of it is its object's selected row.\<close>

record notification =
  object_selectedRow :: int

text \<open>
  \<^verbatim>\<open>tableViewSelectionDidChange_\<close>. The call of the handler is recorded in
  \<open>on_select_calls\<close>; what the handler itself does is the application's.
\<close>

definition tableViewSelectionDidChange :: "notification \<Rightarrow> table \<Rightarrow> (pyerror + unit) \<times> table" where
  "tableViewSelectionDidChange n t =
     (let ix = selectedRowIndexes t
      in case selected_rows (data (interface t)) ix (index_count ix) (firstIndex ix) [] of
           Inl e \<Rightarrow> (Inl e, t)
         | Inr sel \<Rightarrow>
             (let s = (if \<not> multiple_select (interface t)
                       then (case sel of [] \<Rightarrow> SelNone | r # _ \<Rightarrow> SelRow r)
                       else SelRows sel);
                  t1 = t\<lparr>interface := (interface t)\<lparr>selection := s\<rparr>\<rparr>
              in case (if object_selectedRow n = - 1 then Inr None
                       else map_sum id Some (getitem (data (interface t1)) (object_selectedRow n))) of
                   Inl e \<Rightarrow> (Inl e, t1)
                 | Inr selected \<Rightarrow>
                     (case on_select (interface t1) of
                        None \<Rightarrow> (Inr (), t1)
                      | Some handler \<Rightarrow>
                          (Inr (), t1\<lparr>on_select_calls := on_select_calls t1 @ [(handler, selected)]\<rparr>))))"

section \<open>Histories of calls\<close>

text \<open>
  The calls the adapter receives, from the application-level widget and from the
  toolkit. A call that raises leaves the state it reached; the history goes on from it.
\<close>

datatype call =
    Change_source "nat list"
  | Insert int nat
  | Change nat
  | Remove nat
  | Clear
  | Set_on_select string
  | Scroll_to_row int
  | Rehint
  | Add_column string string
  | Remove_column string
  | ObjectValue table_column int
  | SelectionDidChange notification

fun step :: "call \<Rightarrow> table \<Rightarrow> table" where
  "step (Change_source source) t = change_source source t"
| "step (Insert index item) t = insert_item index item t"
| "step (Change item) t = change item t"
| "step (Remove item) t = remove item t"
| "step Clear t = clear t"
| "step (Set_on_select handler) t = set_on_select handler t"
| "step (Scroll_to_row r) t = scroll_to_row r t"
| "step Rehint t = rehint t"
| "step (Add_column heading accessor) t = add_column heading accessor t"
| "step (Remove_column accessor) t = snd (remove_column accessor t)"
| "step (ObjectValue column row) t = snd (tableView_objectValueForTableColumn_row column row t)"
| "step (SelectionDidChange n) t = snd (tableViewSelectionDidChange n t)"

fun run :: "call list \<Rightarrow> table \<Rightarrow> table" where
  "run [] t = t"
| "run (c # cs) t = run cs (step c t)"

section \<open>Example states\<close>

definition blank_interface :: interface where
  "blank_interface =
     \<lparr>data = None, headings = [], accessors = [], multiple_select = False,
      missing_value = Inr (PStr ''''), on_select = None, selection = SelNone,
      factory = (\<lambda>r. Inl (OtherError r)), MIN_WIDTH = 100, MIN_HEIGHT = 100,
      intrinsic_width = exactly 0, intrinsic_height = exactly 0\<rparr>"

definition blank_table :: table where
  "blank_table =
     \<lparr>interface = blank_interface,
      row_objects = (\<lambda>a. \<lparr>row_attrs = Map.empty, row_impl = None\<rparr>),
      toga_data = Map.empty, next_toga_data = 0, columns = [],
      column_identifiers = Map.empty, tableColumns = [], next_column = 0,
      selectedRowIndexes = [], native_calls = [], printed = [], on_select_calls = [],
      repr_impl = (\<lambda>d. ''{}''),
      hasVerticalScroller = False, hasHorizontalScroller = False,
      autohidesScrollers = False, borderType = NSNoBorder,
      columnAutoresizingStyle = NoAutoresizing, allowsMultipleSelection = False\<rparr>"

text \<open>
  A table with the headings Name and Age over three rows: the row at address 10 has
  only a name, the row at address 11 has an (icon, value) tuple for its name, and the
  name of the row at address 12 is an object with an icon to bind. The factory binds
  every resource but \<^verbatim>\<open>lost.png\<close>.
\<close>

definition people_interface :: interface where
  "people_interface =
     blank_interface\<lparr>data := Some [10, 11, 12], headings := [''Name'', ''Age''],
       accessors := [''name'', ''age''], missing_value := Inr (PStr ''n/a''),
       on_select := Some ''on_select'',
       factory := (\<lambda>r. if r = ''lost.png'' then Inl (OtherError r)
                        else Inr (PObj r r None None))\<rparr>"

definition people_rows :: "nat \<Rightarrow> row" where
  "people_rows =
     (row_objects blank_table)
       (10 := \<lparr>row_attrs = [''name'' \<mapsto> PStr ''Ana''], row_impl = None\<rparr>,
        11 := \<lparr>row_attrs = [''name'' \<mapsto> PTuple [PNone, PStr ''Bob''], ''age'' \<mapsto> PInt 41],
               row_impl = None\<rparr>,
        12 := \<lparr>row_attrs =
                 [''name'' \<mapsto>
                    PObj ''Cy'' ''<Person Cy>''
                      (Some (PObj ''<Icon>'' ''<Icon>'' None (Some ''cy.png''))) None,
                  ''age'' \<mapsto> PInt 7],
               row_impl = None\<rparr>)"

definition people :: table where
  "people = create (blank_table\<lparr>interface := people_interface, row_objects := people_rows\<rparr>)"

definition column_for :: "string \<Rightarrow> table_column" where
  "column_for accessor =
     \<lparr>column_object = 0, col_identifier = at accessor, dataCell = Some TogaIconCell,
      headerCell_stringValue = accessor\<rparr>"




text \<open>
  The example table with the rows at the indexes 0 and 2 selected, under multiple
  selection, and with the row at index 1 selected, under single selection.
\<close>

definition people_multi :: table where
  "people_multi =
     people\<lparr>interface := (interface people)\<lparr>multiple_select := True\<rparr>,
       selectedRowIndexes := [2, 0]\<rparr>"

definition people_single :: table where
  "people_single = people\<lparr>selectedRowIndexes := [1]\<rparr>"

text \<open>A table whose only row has a tuple of three elements for its name.\<close>

definition triple_table :: table where
  "triple_table =
     blank_table\<lparr>interface := blank_interface\<lparr>data := Some [20]\<rparr>,
       row_objects := (row_objects blank_table)
         (20 := \<lparr>row_attrs = [''name'' \<mapsto> PTuple [PNone, PStr ''a'', PStr ''b'']],
                row_impl = None\<rparr>)\<rparr>"

section \<open>Properties\<close>

subsection \<open>Row count\<close>

text \<open>
  C7: \<^verbatim>\<open>numberOfRowsInTableView_\<close> returns the length of the interface's data sequence
  when it is present (so also when it is non-empty), and 0 when the data is absent or
  empty.
\<close>

theorem row_count:
  "numberOfRowsInTableView t =
     (case data (interface t) of None \<Rightarrow> 0 | Some rs \<Rightarrow> int (length rs))"
  by (simp add: numberOfRowsInTableView_def split: option.splits)

subsection \<open>Mutations are forwarded as one reload\<close>

text \<open>
  C6: each of \<^verbatim>\<open>insert\<close>, \<^verbatim>\<open>change\<close>, \<^verbatim>\<open>remove\<close> and \<^verbatim>\<open>clear\<close>, whatever its arguments,
  sends \<^verbatim>\<open>reloadData\<close> to the native view exactly once and does nothing else: the state
  after the call is the state before it with one \<open>ReloadData\<close> more at the end of the
  calls the view received.
\<close>

theorem mutation_reloads_once:
  "insert_item index item t = t\<lparr>native_calls := native_calls t @ [ReloadData]\<rparr>
   \<and> change item t = t\<lparr>native_calls := native_calls t @ [ReloadData]\<rparr>
   \<and> remove item t = t\<lparr>native_calls := native_calls t @ [ReloadData]\<rparr>
   \<and> clear t = t\<lparr>native_calls := native_calls t @ [ReloadData]\<rparr>"
  by (simp add: insert_item_def change_def remove_def clear_def reloadData_def)

subsection \<open>Operations that leave the columns alone\<close>

text \<open>
  C9: \<^verbatim>\<open>insert\<close>, \<^verbatim>\<open>change\<close>, \<^verbatim>\<open>remove\<close>, \<^verbatim>\<open>clear\<close>, \<^verbatim>\<open>change_source\<close>, \<^verbatim>\<open>scroll_to_row\<close>,
  \<^verbatim>\<open>set_on_select\<close> and \<^verbatim>\<open>rehint\<close> leave \<open>columns\<close> and \<open>column_identifiers\<close> as they
  were, and \<^verbatim>\<open>set_on_select\<close> changes nothing at all.
\<close>

theorem columns_untouched:
  "columns (insert_item index item t) = columns t
   \<and> column_identifiers (insert_item index item t) = column_identifiers t
   \<and> columns (change item t) = columns t
   \<and> column_identifiers (change item t) = column_identifiers t
   \<and> columns (remove item t) = columns t
   \<and> column_identifiers (remove item t) = column_identifiers t
   \<and> columns (clear t) = columns t
   \<and> column_identifiers (clear t) = column_identifiers t
   \<and> columns (change_source source t) = columns t
   \<and> column_identifiers (change_source source t) = column_identifiers t
   \<and> columns (scroll_to_row r t) = columns t
   \<and> column_identifiers (scroll_to_row r t) = column_identifiers t
   \<and> columns (set_on_select handler t) = columns t
   \<and> column_identifiers (set_on_select handler t) = column_identifiers t
   \<and> columns (rehint t) = columns t
   \<and> column_identifiers (rehint t) = column_identifiers t
   \<and> set_on_select handler t = t"
  by (simp add: insert_item_def change_def remove_def clear_def reloadData_def
      change_source_def scroll_to_row_def scrollRowToVisible_def set_on_select_def
      rehint_def Let_def)

subsection \<open>The example table\<close>

lemma people_state:
  "columns people =
     [\<lparr>column_object = 0, col_identifier = at ''name'', dataCell = Some TogaIconCell,
       headerCell_stringValue = ''Name''\<rparr>,
      \<lparr>column_object = Suc 0, col_identifier = at ''age'', dataCell = Some TogaIconCell,
       headerCell_stringValue = ''Age''\<rparr>]"
  "tableColumns people = columns people"
  "column_identifiers people = [''name'' \<mapsto> at ''name'', ''age'' \<mapsto> at ''age'']"
  "interface people = people_interface"
  "row_objects people = people_rows"
  "next_toga_data people = 0"
  "toga_data people = Map.empty"
  "repr_impl people = (\<lambda>d. ''{}'')"
  "printed people = []"
  "on_select_calls people = []"
  "selectedRowIndexes people = []"
  by (simp_all add: people_def create_def people_interface_def blank_interface_def
      blank_table_def add_column_internal_def Let_def)

subsection \<open>The cell function, step by step\<close>

lemma obtain_impl_Some:
  "\<exists>c. row_impl (row_objects (obtain_impl a t) a) = Some c
       \<and> (case row_impl (row_objects t a) of Some c0 \<Rightarrow> c = c0 | None \<Rightarrow> c = Map.empty)"
  by (simp add: obtain_impl_def split: option.splits)

lemma obtain_impl_frame:
  "interface (obtain_impl a t) = interface t"
  "row_attrs (row_objects (obtain_impl a t) b) = row_attrs (row_objects t b)"
  "toga_data (obtain_impl a t) = toga_data t"
  "next_toga_data (obtain_impl a t) = next_toga_data t"
  "repr_impl (obtain_impl a t) = repr_impl t"
  "b \<noteq> a \<Longrightarrow> row_objects (obtain_impl a t) b = row_objects t b"
  by (simp_all add: obtain_impl_def split: option.splits)

lemma obtain_datum_frame:
  assumes "obtain_datum a ident t = (d, t')"
  shows "interface t' = interface t"
    "row_attrs (row_objects t' b) = row_attrs (row_objects t b)"
    "repr_impl t' = repr_impl t"
    "b \<noteq> a \<Longrightarrow> row_objects t' b = row_objects t b"
  using assms by (auto simp: obtain_datum_def Let_def split: option.splits)

lemma obtain_datum_hit:
  assumes "row_impl (row_objects t a) = Some c" and "c ident = Some d0"
  shows "obtain_datum a ident t = (d0, t)"
  using assms by (simp add: obtain_datum_def)

lemma obtain_datum_miss:
  assumes "row_impl (row_objects t a) = Some c" and "c ident = None"
    and "obtain_datum a ident t = (d, t')"
  shows "d = next_toga_data t" "next_toga_data t' = Suc d"
    "row_impl (row_objects t' a) = Some (c(ident \<mapsto> d))" "toga_data t' d = None"
  using assms by (auto simp: obtain_datum_def Let_def)

lemma column_value_frame:
  assumes "column_value row ident a t = (v, t')"
  shows "interface t' = interface t" "row_objects t' = row_objects t"
    "toga_data t' = toga_data t" "next_toga_data t' = next_toga_data t" "repr_impl t' = repr_impl t"
  using assms by (auto simp: column_value_def split: sum.splits prod.splits)

lemma column_value_fst:
  "fst (column_value row ident a t) =
     (case getattr_row (repr_impl t) (row_objects t a) ident of
        Inr x \<Rightarrow> x
      | Inl e \<Rightarrow> (case missing_value (interface t) of Inr m \<Rightarrow> m | Inl (msg, x) \<Rightarrow> x))"
  by (simp add: column_value_def split: sum.splits prod.splits)

lemma resolve_facts:
  assumes "resolve column row a t = ((d, v), t3)"
  shows "interface t3 = interface t"
    and "repr_impl t3 = repr_impl t"
    and "\<forall>b. row_attrs (row_objects t3 b) = row_attrs (row_objects t b)"
    and "\<exists>c. row_impl (row_objects t3 a) = Some c \<and> c (str_ns (col_identifier column)) = Some d"
    and "v = fst (column_value row (str_ns (col_identifier column)) a t3)"
proof -
  let ?i = "str_ns (col_identifier column)"
  let ?t1 = "obtain_impl a t"
  obtain d' t2 where od: "obtain_datum a ?i ?t1 = (d', t2)" by (cases "obtain_datum a ?i ?t1")
  obtain v' t3' where cv: "column_value row ?i a t2 = (v', t3')" by (cases "column_value row ?i a t2")
  from assms od cv have eqs: "d = d'" "v = v'" "t3 = t3'"
    by (simp_all add: resolve_def Let_def)
  show "interface t3 = interface t"
    using eqs obtain_datum_frame(1)[OF od] column_value_frame(1)[OF cv] obtain_impl_frame(1) by simp
  show "repr_impl t3 = repr_impl t"
    using eqs obtain_datum_frame(3)[OF od] column_value_frame(5)[OF cv] obtain_impl_frame(5) by simp
  show "\<forall>b. row_attrs (row_objects t3 b) = row_attrs (row_objects t b)"
    using eqs obtain_datum_frame(2)[OF od] column_value_frame(2)[OF cv] obtain_impl_frame(2) by simp
  obtain c where c: "row_impl (row_objects ?t1 a) = Some c" using obtain_impl_Some by blast
  have "\<exists>c'. row_impl (row_objects t2 a) = Some c' \<and> c' ?i = Some d'"
  proof (cases "c ?i")
    case None
    from obtain_datum_miss(3)[OF c None od] show ?thesis by simp
  next
    case (Some d0)
    from obtain_datum_hit[OF c Some] od have "d' = d0" "t2 = ?t1" by simp_all
    with c Some show ?thesis by simp
  qed
  then show "\<exists>c. row_impl (row_objects t3 a) = Some c \<and> c ?i = Some d"
    using eqs column_value_frame(2)[OF cv] by simp
  have "fst (column_value row ?i a t3') = fst (column_value row ?i a t2)"
    using column_value_frame[OF cv] by (simp add: column_value_fst split: sum.splits)
  then show "v = fst (column_value row ?i a t3)" using eqs cv by simp
qed



lemma call_unfold:
  assumes "getitem (data (interface t)) row = Inr a"
    and "resolve column row a t = ((d, v), t3)"
  shows "tableView_objectValueForTableColumn_row column row t =
           (case icon_and_value v (factory (interface t3)) of
              Inl e \<Rightarrow> (Inl e, t3)
            | Inr (ic, v') \<Rightarrow>
                (Inr d, t3\<lparr>toga_data := (toga_data t3)(d \<mapsto> \<lparr>label = py_str v', icon = ic\<rparr>)\<rparr>))"
  using assms by (simp add: tableView_objectValueForTableColumn_row_def)

lemma call_returns:
  assumes "tableView_objectValueForTableColumn_row column row t = (Inr d, t')"
  shows "\<exists>a v t3 ic v'. getitem (data (interface t)) row = Inr a
           \<and> resolve column row a t = ((d, v), t3)
           \<and> icon_and_value v (factory (interface t3)) = Inr (ic, v')
           \<and> t' = t3\<lparr>toga_data := (toga_data t3)(d \<mapsto> \<lparr>label = py_str v', icon = ic\<rparr>)\<rparr>"
proof -
  obtain a where a: "getitem (data (interface t)) row = Inr a"
    using assms by (cases "getitem (data (interface t)) row")
      (auto simp: tableView_objectValueForTableColumn_row_def)
  obtain d0 v t3 where r: "resolve column row a t = ((d0, v), t3)"
    by (metis prod.exhaust)
  from call_unfold[OF a r] assms show ?thesis
    using a r by (auto split: sum.splits prod.splits)
qed

lemma column_value_fst_toga_data:
  "fst (column_value row ident a (t\<lparr>toga_data := x\<rparr>)) = fst (column_value row ident a t)"
  by (simp add: column_value_fst split: sum.splits)

lemma call_returns_facts:
  assumes "tableView_objectValueForTableColumn_row column row t = (Inr d, t')"
    and "getitem (data (interface t)) row = Inr a"
  shows "interface t' = interface t"
    and "repr_impl t' = repr_impl t"
    and "\<forall>b. row_attrs (row_objects t' b) = row_attrs (row_objects t b)"
    and "\<exists>c. row_impl (row_objects t' a) = Some c \<and> c (str_ns (col_identifier column)) = Some d"
    and "\<exists>ic v. icon_and_value (fst (column_value row (str_ns (col_identifier column)) a t'))
                   (factory (interface t')) = Inr (ic, v)
               \<and> toga_data t' d = Some \<lparr>label = py_str v, icon = ic\<rparr>"
proof -
  from call_returns[OF assms(1)] assms(2)
  obtain v t3 ic v' where r: "resolve column row a t = ((d, v), t3)"
    and iv: "icon_and_value v (factory (interface t3)) = Inr (ic, v')"
    and t': "t' = t3\<lparr>toga_data := (toga_data t3)(d \<mapsto> \<lparr>label = py_str v', icon = ic\<rparr>)\<rparr>"
    by auto
  note f = resolve_facts[OF r]
  show "interface t' = interface t" using f(1) t' by simp
  show "repr_impl t' = repr_impl t" using f(2) t' by simp
  show "\<forall>b. row_attrs (row_objects t' b) = row_attrs (row_objects t b)" using f(3) t' by simp
  show "\<exists>c. row_impl (row_objects t' a) = Some c \<and> c (str_ns (col_identifier column)) = Some d"
    using f(4) t' by simp
  have "fst (column_value row (str_ns (col_identifier column)) a t') = v"
    using f(5) t' by (simp add: column_value_fst_toga_data)
  then show "\<exists>ic v. icon_and_value (fst (column_value row (str_ns (col_identifier column)) a t'))
                   (factory (interface t')) = Inr (ic, v)
               \<and> toga_data t' d = Some \<lparr>label = py_str v, icon = ic\<rparr>"
    using iv t' by simp
qed



lemmas cell_defs = tableView_objectValueForTableColumn_row_def resolve_def obtain_impl_def
  obtain_datum_def column_value_def getattr_row_def icon_and_value_def bind_icon_def getitem_def
  column_for_def at_def Let_def

lemmas people_defs = people_state people_interface_def people_rows_def blank_interface_def
  blank_table_def

subsection \<open>The label of a cell\<close>

text \<open>
  C1, as amended. Whenever \<^verbatim>\<open>tableView_objectValueForTableColumn_row_\<close> returns, the row
  index names a row of the data, whose application attributes the call leaves alone. The
  value resolved is the row's attribute named by the column identifier when the row has
  it; exactly when the row lacks it, it is the interface's \<^verbatim>\<open>missing_value\<close> (or, when
  none is configured and reading it raises ValueError, the value that exception
  carries). The label of the render object returned is the string form of the resolved
  value when that is no tuple, and the string form of the second element when it is an
  (icon, value) tuple.
\<close>

theorem cell_label:
  assumes "tableView_objectValueForTableColumn_row column row t = (Inr d, t')"
  shows "\<exists>a v. getitem (data (interface t)) row = Inr a
           \<and> row_attrs (row_objects t' a) = row_attrs (row_objects t a)
           \<and> v = (case getattr_row (repr_impl t') (row_objects t' a)
                          (str_ns (col_identifier column)) of
                    Inr x \<Rightarrow> x
                  | Inl e \<Rightarrow>
                      (case missing_value (interface t) of Inr m \<Rightarrow> m | Inl (msg, x) \<Rightarrow> x))
           \<and> (\<forall>ic v'. v = PTuple [ic, v'] \<longrightarrow>
                 map_option label (toga_data t' d) = Some (py_str v'))
           \<and> ((\<forall>vs. v \<noteq> PTuple vs) \<longrightarrow>
                 map_option label (toga_data t' d) = Some (py_str v))"
proof -
  from call_returns[OF assms] obtain a where a: "getitem (data (interface t)) row = Inr a"
    by blast
  note f = call_returns_facts[OF assms a]
  define v where "v = fst (column_value row (str_ns (col_identifier column)) a t')"
  from f(5) obtain ic v' where iv: "icon_and_value v (factory (interface t')) = Inr (ic, v')"
    and td: "toga_data t' d = Some \<lparr>label = py_str v', icon = ic\<rparr>"
    unfolding v_def by blast
  have pair: "\<forall>ic0 v0. v = PTuple [ic0, v0] \<longrightarrow> v' = v0"
    using iv by (auto simp: icon_and_value_def)
  have plain: "(\<forall>vs. v \<noteq> PTuple vs) \<longrightarrow> v' = v"
    using iv by (cases v) (auto simp: icon_and_value_def split: sum.splits pyerror.splits)
  have veq: "v = (case getattr_row (repr_impl t') (row_objects t' a)
                          (str_ns (col_identifier column)) of
                    Inr x \<Rightarrow> x
                  | Inl e \<Rightarrow>
                      (case missing_value (interface t) of Inr m \<Rightarrow> m | Inl (msg, x) \<Rightarrow> x))"
    unfolding v_def using f(1) by (simp add: column_value_fst split: sum.splits)
  have "getitem (data (interface t)) row = Inr a
           \<and> row_attrs (row_objects t' a) = row_attrs (row_objects t a)
           \<and> v = (case getattr_row (repr_impl t') (row_objects t' a)
                          (str_ns (col_identifier column)) of
                    Inr x \<Rightarrow> x
                  | Inl e \<Rightarrow>
                      (case missing_value (interface t) of Inr m \<Rightarrow> m | Inl (msg, x) \<Rightarrow> x))
           \<and> (\<forall>ic v'. v = PTuple [ic, v'] \<longrightarrow>
                 map_option label (toga_data t' d) = Some (py_str v'))
           \<and> ((\<forall>vs. v \<noteq> PTuple vs) \<longrightarrow>
                 map_option label (toga_data t' d) = Some (py_str v))"
    using a f(3) veq td pair plain by simp
  then show ?thesis by blast
qed

text \<open>
  The row at address 10 has no age: the cell of its Age column shows the missing value.
\<close>

theorem cell_label_witness:
  "map_option label
     (toga_data (snd (tableView_objectValueForTableColumn_row (column_for ''age'') 0 people)) 0)
   = Some ''n/a''"
proof -
  have returns: "tableView_objectValueForTableColumn_row (column_for ''age'') 0 people =
      (Inr 0, snd (tableView_objectValueForTableColumn_row (column_for ''age'') 0 people))"
    by (simp add: prod_eq_iff cell_defs people_defs)
  from cell_label [OF returns] show ?thesis
    by (simp add: cell_defs people_defs py_str_def)
qed

text \<open>
  C1 as stated fails where the attribute is an (icon, value) tuple: the name of the row
  at address 11 resolves to the tuple \<^verbatim>\<open>(None, 'Bob')\<close>, and the label is \<^verbatim>\<open>Bob\<close>, which
  is not the string form of that tuple.
\<close>

theorem cell_label_counterexample:
  "fst (tableView_objectValueForTableColumn_row (column_for ''name'') 1 people) = Inr 0
   \<and> getattr_row (repr_impl people) (row_objects people 11) ''name''
       = Inr (PTuple [PNone, PStr ''Bob''])
   \<and> map_option label
        (toga_data (snd (tableView_objectValueForTableColumn_row (column_for ''name'') 1 people)) 0)
       = Some ''Bob''
   \<and> py_str (PTuple [PNone, PStr ''Bob'']) \<noteq> ''Bob''"
  by (simp add: cell_defs people_defs py_str_def)

subsection \<open>The icon of a cell\<close>

text \<open>
  C8, as amended. Let \<open>v\<close> be the value resolved for the cell.
  \<^item> If \<open>v\<close> is a tuple of two elements, the call returns the render object with the
    first as icon and the string form of the second as label.
  \<^item> If \<open>v\<close> is no tuple, the icon is what \<^verbatim>\<open>v.icon.bind(factory)\<close> returns; when that
    raises AttributeError, as it does whenever \<open>v\<close> has no \<^verbatim>\<open>icon\<close> attribute, the icon
    is \<^verbatim>\<open>None\<close>; in both cases the call returns and the label is the string form of
    \<open>v\<close>. Any other error raised by the binding is not caught: the call raises it.
\<close>

theorem icon_resolution:
  assumes "getitem (data (interface t)) row = Inr a"
    and "resolve column row a t = ((d, v), t3)"
  shows "(\<forall>ic v'. v = PTuple [ic, v'] \<longrightarrow>
            tableView_objectValueForTableColumn_row column row t =
              (Inr d, t3\<lparr>toga_data := (toga_data t3)(d \<mapsto> \<lparr>label = py_str v', icon = ic\<rparr>)\<rparr>))
       \<and> ((\<forall>vs. v \<noteq> PTuple vs) \<longrightarrow>
            (\<forall>ic. bind_icon v (factory (interface t)) = Inr ic \<longrightarrow>
               tableView_objectValueForTableColumn_row column row t =
                 (Inr d, t3\<lparr>toga_data := (toga_data t3)(d \<mapsto> \<lparr>label = py_str v, icon = ic\<rparr>)\<rparr>))
          \<and> (bind_icon v (factory (interface t)) = Inl AttributeError \<longrightarrow>
               tableView_objectValueForTableColumn_row column row t =
                 (Inr d, t3\<lparr>toga_data := (toga_data t3)(d \<mapsto> \<lparr>label = py_str v, icon = PNone\<rparr>)\<rparr>))
          \<and> ((\<forall>s r ic b. v \<noteq> PObj s r (Some ic) b) \<longrightarrow>
               bind_icon v (factory (interface t)) = Inl AttributeError)
          \<and> (\<forall>e. bind_icon v (factory (interface t)) = Inl e \<and> e \<noteq> AttributeError \<longrightarrow>
               tableView_objectValueForTableColumn_row column row t = (Inl e, t3)))"
proof -
  have i: "interface t3 = interface t"
    using resolve_facts(1)[OF assms(2)] .
  note u = call_unfold[OF assms, unfolded i]
  have pair: "\<forall>ic v'. v = PTuple [ic, v'] \<longrightarrow>
            tableView_objectValueForTableColumn_row column row t =
              (Inr d, t3\<lparr>toga_data := (toga_data t3)(d \<mapsto> \<lparr>label = py_str v', icon = ic\<rparr>)\<rparr>)"
    by (simp add: u icon_and_value_def)
  have noattr: "(\<forall>s r ic b. v \<noteq> PObj s r (Some ic) b) \<longrightarrow>
               bind_icon v (factory (interface t)) = Inl AttributeError"
    by (cases v) (auto simp: bind_icon_def split: option.splits)
  have plain: "(\<forall>vs. v \<noteq> PTuple vs) \<Longrightarrow>
      icon_and_value v (factory (interface t)) =
        (case bind_icon v (factory (interface t)) of
           Inr ic \<Rightarrow> Inr (ic, v)
         | Inl AttributeError \<Rightarrow> Inr (PNone, v)
         | Inl e \<Rightarrow> Inl e)"
    by (cases v) (auto simp: icon_and_value_def split: sum.splits pyerror.splits)
  have rest: "(\<forall>vs. v \<noteq> PTuple vs) \<Longrightarrow>
            (\<forall>ic. bind_icon v (factory (interface t)) = Inr ic \<longrightarrow>
               tableView_objectValueForTableColumn_row column row t =
                 (Inr d, t3\<lparr>toga_data := (toga_data t3)(d \<mapsto> \<lparr>label = py_str v, icon = ic\<rparr>)\<rparr>))
          \<and> (bind_icon v (factory (interface t)) = Inl AttributeError \<longrightarrow>
               tableView_objectValueForTableColumn_row column row t =
                 (Inr d, t3\<lparr>toga_data := (toga_data t3)(d \<mapsto> \<lparr>label = py_str v, icon = PNone\<rparr>)\<rparr>))
          \<and> (\<forall>e. bind_icon v (factory (interface t)) = Inl e \<and> e \<noteq> AttributeError \<longrightarrow>
               tableView_objectValueForTableColumn_row column row t = (Inl e, t3))"
    by (auto simp: u plain split: pyerror.splits)
  show ?thesis using pair noattr rest by blast
qed

text \<open>
  The name of the row at address 12 is an object with an icon: the cell shows the
  object's text with the icon the factory binds.
\<close>

theorem icon_resolution_witness:
  "fst (tableView_objectValueForTableColumn_row (column_for ''name'') 2 people) = Inr 0
   \<and> toga_data (snd (tableView_objectValueForTableColumn_row (column_for ''name'') 2 people)) 0
       = Some \<lparr>label = ''Cy'', icon = PObj ''cy.png'' ''cy.png'' None None\<rparr>"
proof -
  have row: "getitem (data (interface people)) 2 = Inr 12"
    by (simp add: getitem_def people_defs)
  have resolved: "resolve (column_for ''name'') 2 12 people =
      ((fst (fst (resolve (column_for ''name'') 2 12 people)),
        snd (fst (resolve (column_for ''name'') 2 12 people))),
       snd (resolve (column_for ''name'') 2 12 people))"
    by simp
  from icon_resolution [OF row resolved] show ?thesis
    by (simp add: cell_defs people_defs py_str_def)
qed

text \<open>
  C8 as stated fails for a tuple that is not a pair: unpacking it raises ValueError, and
  the call raises it.
\<close>

theorem icon_resolution_counterexample:
  "fst (tableView_objectValueForTableColumn_row (column_for ''name'') 0 triple_table)
   = Inl ValueError"
  by (simp add: cell_defs triple_table_def blank_table_def blank_interface_def)

subsection \<open>The render object of a cell is made once\<close>



lemma resolve_keeps_cached:
  assumes "cached t b j = Some d"
  shows "cached (snd (resolve column row a t)) b j = Some d"
  using assms
  by (auto simp: cached_def resolve_def obtain_impl_def obtain_datum_def column_value_def Let_def
      split: option.splits sum.splits prod.splits)

lemma objectValue_keeps_cached:
  assumes "cached t b j = Some d"
  shows "cached (snd (tableView_objectValueForTableColumn_row column row t)) b j = Some d"
proof (cases "getitem (data (interface t)) row")
  case (Inl e)
  then show ?thesis using assms by (simp add: tableView_objectValueForTableColumn_row_def)
next
  case (Inr a)
  obtain d0 v t3 where r: "resolve column row a t = ((d0, v), t3)" by (metis prod.exhaust)
  from resolve_keeps_cached[OF assms, of column row a] r have "cached t3 b j = Some d" by simp
  then show ?thesis
    by (simp add: call_unfold[OF Inr r] cached_def split: sum.splits prod.splits)
qed

lemma selection_keeps_cached:
  "cached (snd (tableViewSelectionDidChange n t)) b j = cached t b j"
  by (simp add: tableViewSelectionDidChange_def cached_def Let_def split: sum.splits option.splits)

lemma step_keeps_cached:
  assumes "cached t b j = Some d"
  shows "cached (step c t) b j = Some d"
proof (cases c)
  case (ObjectValue column row)
  then show ?thesis using objectValue_keeps_cached[OF assms] by simp
next
  case (SelectionDidChange n)
  then show ?thesis using assms by (simp add: selection_keeps_cached)
next
  case (Remove_column accessor)
  then show ?thesis using assms
    by (auto simp: cached_def remove_column_def tableColumnWithIdentifier_def
        removeTableColumn_def sizeToFit_def Let_def split: option.splits)
qed (use assms in \<open>simp_all add: cached_def change_source_def insert_item_def change_def
      remove_def clear_def reloadData_def set_on_select_def scroll_to_row_def
      scrollRowToVisible_def rehint_def Let_def add_column_def add_column_internal_def
      sizeToFit_def\<close>)

lemma run_keeps_cached: "cached t b j = Some d \<Longrightarrow> cached (run cs t) b j = Some d"
  by (induction cs arbitrary: t) (simp_all add: step_keeps_cached)

text \<open>The objects in the caches were all allocated: every history keeps that.\<close>

lemma obtain_impl_cached: "cached (obtain_impl a t) b j = cached t b j"
  by (simp add: cached_def obtain_impl_def split: option.splits)

lemma obtain_datum_allocated:
  assumes "\<forall>b j x. cached t b j = Some x \<longrightarrow> x < next_toga_data t"
    and "cached (snd (obtain_datum a i t)) b j = Some x"
  shows "x < next_toga_data (snd (obtain_datum a i t))"
proof (cases "cached t a i")
  case (Some d0)
  then have "obtain_datum a i t = (d0, t)"
    by (auto simp: cached_def obtain_datum_def split: option.splits)
  then show ?thesis using assms by simp
next
  case None
  then have od: "snd (obtain_datum a i t) =
      t\<lparr>next_toga_data := Suc (next_toga_data t),
        toga_data := (toga_data t)(next_toga_data t := None),
        row_objects := (row_objects t)
          (a := (row_objects t a)
             \<lparr>row_impl := Some ((case row_impl (row_objects t a) of Some d \<Rightarrow> d | None \<Rightarrow> Map.empty)
                                  (i \<mapsto> next_toga_data t))\<rparr>)\<rparr>"
    by (auto simp: cached_def obtain_datum_def Let_def split: option.splits)
  have "x = next_toga_data t \<or> cached t b j = Some x"
    using assms(2) unfolding od
    by (auto simp: cached_def split: option.splits if_splits)
  then show ?thesis using assms(1) unfolding od by (auto simp: less_Suc_eq)
qed

lemma column_value_cached:
  "cached (snd (column_value row i a t)) b j = cached t b j"
  "next_toga_data (snd (column_value row i a t)) = next_toga_data t"
  by (simp_all add: cached_def column_value_def split: sum.splits prod.splits)

lemma resolve_allocated:
  assumes "\<forall>b j x. cached t b j = Some x \<longrightarrow> x < next_toga_data t"
  shows "\<forall>b j x. cached (snd (resolve column row a t)) b j = Some x
           \<longrightarrow> x < next_toga_data (snd (resolve column row a t))"
proof -
  let ?i = "str_ns (col_identifier column)"
  let ?t1 = "obtain_impl a t"
  let ?t2 = "snd (obtain_datum a ?i ?t1)"
  have r: "snd (resolve column row a t) = snd (column_value row ?i a ?t2)"
    by (simp add: resolve_def Let_def split: prod.splits)
  have 1: "\<forall>b j x. cached ?t1 b j = Some x \<longrightarrow> x < next_toga_data ?t1"
    using assms by (simp add: obtain_impl_cached obtain_impl_frame)
  have 2: "\<forall>b j x. cached ?t2 b j = Some x \<longrightarrow> x < next_toga_data ?t2"
    using obtain_datum_allocated[OF 1] by blast
  show ?thesis unfolding r using 2 by (simp add: column_value_cached)
qed

lemma objectValue_allocated:
  assumes "\<forall>b j x. cached t b j = Some x \<longrightarrow> x < next_toga_data t"
  shows "\<forall>b j x. cached (snd (tableView_objectValueForTableColumn_row column row t)) b j = Some x
           \<longrightarrow> x < next_toga_data (snd (tableView_objectValueForTableColumn_row column row t))"
proof (cases "getitem (data (interface t)) row")
  case (Inl e)
  then show ?thesis using assms by (simp add: tableView_objectValueForTableColumn_row_def)
next
  case (Inr a)
  obtain d0 v t3 where r: "resolve column row a t = ((d0, v), t3)" by (metis prod.exhaust)
  from resolve_allocated[OF assms, of column row a] r
  have "\<forall>b j x. cached t3 b j = Some x \<longrightarrow> x < next_toga_data t3" by simp
  then show ?thesis
    by (simp add: call_unfold[OF Inr r] cached_def split: sum.splits prod.splits)
qed

lemma step_allocated:
  assumes "\<forall>b j x. cached t b j = Some x \<longrightarrow> x < next_toga_data t"
  shows "\<forall>b j x. cached (step c t) b j = Some x \<longrightarrow> x < next_toga_data (step c t)"
proof (cases c)
  case (ObjectValue column row)
  then show ?thesis using objectValue_allocated[OF assms] by simp
next
  case (SelectionDidChange n)
  then show ?thesis using assms
    by (simp add: tableViewSelectionDidChange_def cached_def Let_def split: sum.splits option.splits)
next
  case (Remove_column accessor)
  then show ?thesis using assms
    by (simp add: cached_def remove_column_def tableColumnWithIdentifier_def
        removeTableColumn_def sizeToFit_def Let_def split: option.splits)
qed (use assms in \<open>simp_all add: cached_def change_source_def insert_item_def change_def
      remove_def clear_def reloadData_def set_on_select_def scroll_to_row_def
      scrollRowToVisible_def rehint_def Let_def add_column_def add_column_internal_def
      sizeToFit_def\<close>)

lemma run_allocated:
  "\<forall>b j x. cached t b j = Some x \<longrightarrow> x < next_toga_data t \<Longrightarrow>
   \<forall>b j x. cached (run cs t) b j = Some x \<longrightarrow> x < next_toga_data (run cs t)"
proof (induction cs arbitrary: t)
  case Nil
  then show ?case by simp
next
  case (Cons c cs)
  from step_allocated[OF Cons.prems] have "\<forall>b j x. cached (step c t) b j = Some x \<longrightarrow> x < next_toga_data (step c t)" .
  from Cons.IH[OF this] show ?case by simp
qed




subsection \<open>What every history keeps\<close>

lemma reload_frame:
  "columns (reloadData t) = columns t" "column_identifiers (reloadData t) = column_identifiers t"
  "tableColumns (reloadData t) = tableColumns t"
  by (simp_all add: reloadData_def)

lemma resolve_columns:
  "columns (snd (resolve column row a t)) = columns t
   \<and> column_identifiers (snd (resolve column row a t)) = column_identifiers t
   \<and> tableColumns (snd (resolve column row a t)) = tableColumns t"
  by (simp add: resolve_def obtain_impl_def obtain_datum_def column_value_def Let_def
      split: option.splits sum.splits prod.splits)

lemma objectValue_columns:
  "columns (snd (tableView_objectValueForTableColumn_row column row t)) = columns t
   \<and> column_identifiers (snd (tableView_objectValueForTableColumn_row column row t)) = column_identifiers t
   \<and> tableColumns (snd (tableView_objectValueForTableColumn_row column row t)) = tableColumns t"
proof (cases "getitem (data (interface t)) row")
  case (Inl e)
  then show ?thesis by (simp add: tableView_objectValueForTableColumn_row_def)
next
  case (Inr a)
  obtain d v t3 where r: "resolve column row a t = ((d, v), t3)" by (metis prod.exhaust)
  from resolve_columns[of column row a t] r
  have "columns t3 = columns t \<and> column_identifiers t3 = column_identifiers t \<and> tableColumns t3 = tableColumns t"
    by simp
  then show ?thesis
    by (simp add: call_unfold[OF Inr r] split: sum.splits prod.splits)
qed

lemma selection_columns:
  "columns (snd (tableViewSelectionDidChange n t)) = columns t
   \<and> column_identifiers (snd (tableViewSelectionDidChange n t)) = column_identifiers t
   \<and> tableColumns (snd (tableViewSelectionDidChange n t)) = tableColumns t"
  by (simp add: tableViewSelectionDidChange_def Let_def split: sum.splits option.splits)

lemma find_mem: "find P xs = Some c \<Longrightarrow> c \<in> set xs"
  by (induction xs) (auto split: if_splits)

lemma remove_column_sync:
  assumes "tableColumns t = columns t"
  shows "tableColumns (snd (remove_column accessor t)) = columns (snd (remove_column accessor t))"
  using assms
  by (auto simp: remove_column_def tableColumnWithIdentifier_def removeTableColumn_def sizeToFit_def Let_def
      dest: find_mem split: option.splits)

lemma add_column_sync:
  assumes "tableColumns t = columns t"
  shows "tableColumns (add_column heading accessor t) = columns (add_column heading accessor t)"
  using assms by (simp add: add_column_def add_column_internal_def sizeToFit_def Let_def)

lemma step_sync:
  assumes "tableColumns t = columns t"
  shows "tableColumns (step c t) = columns (step c t)"
  using assms
  by (cases c)
    (simp_all add: change_source_def insert_item_def change_def remove_def clear_def reload_frame
      set_on_select_def scroll_to_row_def scrollRowToVisible_def rehint_def Let_def
      add_column_sync remove_column_sync objectValue_columns selection_columns)

lemma run_sync: "tableColumns t = columns t \<Longrightarrow> tableColumns (run cs t) = columns (run cs t)"
  by (induction cs arbitrary: t) (simp_all add: step_sync)

lemma fold_add_sync:
  "tableColumns t = columns t \<Longrightarrow>
   tableColumns (fold (\<lambda>(h, a). add_column_internal h a) xs t) =
   columns (fold (\<lambda>(h, a). add_column_internal h a) xs t)"
  by (induction xs arbitrary: t) (auto simp: add_column_internal_def Let_def)

lemma create_sync: "tableColumns (create t) = columns (create t)"
  by (simp add: create_def Let_def fold_add_sync)

lemma reachable_sync: "tableColumns (run cs (create t)) = columns (run cs (create t))"
  by (simp add: run_sync create_sync)

lemma fold_add_untracked:
  "column_identifiers t accessor = None \<Longrightarrow> accessor \<notin> snd ` set xs \<Longrightarrow>
   column_identifiers (fold (\<lambda>(h, a). add_column_internal h a) xs t) accessor = None"
  by (induction xs arbitrary: t) (auto simp: add_column_internal_def Let_def)

lemma create_untracked:
  "accessor \<notin> snd ` set (zip (headings (interface t)) (accessors (interface t))) \<Longrightarrow>
   column_identifiers (create t) accessor = None"
  by (simp add: create_def Let_def fold_add_untracked)

lemma step_untracked:
  assumes "column_identifiers t accessor = None" and "\<forall>heading. c \<noteq> Add_column heading accessor"
  shows "column_identifiers (step c t) accessor = None"
  using assms
  by (cases c)
    (auto simp: change_source_def insert_item_def change_def remove_def clear_def reload_frame
      set_on_select_def scroll_to_row_def scrollRowToVisible_def rehint_def Let_def
      add_column_def add_column_internal_def sizeToFit_def
      remove_column_def tableColumnWithIdentifier_def removeTableColumn_def
      objectValue_columns selection_columns split: option.splits)

lemma run_untracked:
  "column_identifiers t accessor = None \<Longrightarrow> \<forall>heading. Add_column heading accessor \<notin> set cs \<Longrightarrow>
   column_identifiers (run cs t) accessor = None"
proof (induction cs arbitrary: t)
  case Nil
  then show ?case by simp
next
  case (Cons c cs)
  have "column_identifiers (step c t) accessor = None"
    using Cons.prems by (intro step_untracked) auto
  then show ?case using Cons by simp
qed

subsection \<open>Adding and removing a column\<close>

lemma find_append_new: "\<forall>c\<in>set xs. \<not> P c \<Longrightarrow> P y \<Longrightarrow> find P (xs @ [y]) = Some y"
  by (induction xs) auto

lemma remove1_append_new: "y \<notin> set xs \<Longrightarrow> remove1 y (xs @ [y]) = xs"
  by (induction xs) auto

text \<open>
  C4: in a state where the native view holds the tracked columns (every state a
  history of calls reaches, by \<open>reachable_sync\<close>), and for an accessor that is not
  tracked (it is no key of \<open>column_identifiers\<close> and no tracked column carries its
  identifier), \<^verbatim>\<open>add_column(heading, accessor)\<close> followed by \<^verbatim>\<open>remove_column(accessor)\<close>
  returns normally and leaves \<open>columns\<close> and \<open>column_identifiers\<close> exactly as they
  were before the add.
\<close>

theorem add_then_remove_column:
  assumes "column_identifiers t accessor = None"
    and "\<forall>c\<in>set (columns t). col_identifier c \<noteq> at accessor"
    and "tableColumns t = columns t"
  shows "\<exists>t'. remove_column accessor (add_column heading accessor t) = (Inr (), t')
           \<and> columns t' = columns t \<and> column_identifiers t' = column_identifiers t"
proof -
  let ?c = "\<lparr>column_object = next_column t, col_identifier = at accessor,
             dataCell = Some TogaIconCell, headerCell_stringValue = heading\<rparr>"
  have new: "?c \<notin> set (columns t)"
    using assms(2) by auto
  have found: "find (\<lambda>c. col_identifier c = at accessor) (columns t @ [?c]) = Some ?c"
    using assms(2) by (intro find_append_new) auto
  show ?thesis
    using assms(1,3) new found
    by (simp add: remove_column_def add_column_def add_column_internal_def sizeToFit_def
        tableColumnWithIdentifier_def removeTableColumn_def Let_def remove1_append_new
        fun_upd_idem)
qed

theorem add_then_remove_column_witness:
  "fst (remove_column ''city'' (add_column ''City'' ''city'' people)) = Inr ()
   \<and> columns (snd (remove_column ''city'' (add_column ''City'' ''city'' people))) = columns people
   \<and> column_identifiers (snd (remove_column ''city'' (add_column ''City'' ''city'' people))) =
       column_identifiers people"
proof -
  have untracked: "column_identifiers people ''city'' = None"
    by (simp add: people_state)
  have no_column: "\<forall>c\<in>set (columns people). col_identifier c \<noteq> at ''city''"
    by (simp add: people_state at_def)
  have in_view: "tableColumns people = columns people"
    by (simp add: people_state)
  from add_then_remove_column [OF untracked no_column in_view, of "''City''"]
  show ?thesis by auto
qed

text \<open>
  C5: for an accessor that was never added as a column (it is not among the accessors
  \<^verbatim>\<open>create\<close> adds, and no \<^verbatim>\<open>add_column\<close> of the history names it),
  \<^verbatim>\<open>remove_column(accessor)\<close> raises KeyError to its caller and leaves the whole state,
  so also \<open>columns\<close> and \<open>column_identifiers\<close>, unchanged.
\<close>

theorem remove_column_never_added:
  assumes "accessor \<notin> snd ` set (zip (headings (interface t0)) (accessors (interface t0)))"
    and "\<forall>heading. Add_column heading accessor \<notin> set calls"
  shows "remove_column accessor (run calls (create t0)) = (Inl KeyError, run calls (create t0))"
  using run_untracked[OF create_untracked[OF assms(1)] assms(2)]
  by (simp add: remove_column_def)

theorem remove_column_never_added_witness:
  "remove_column ''city'' (run [Add_column ''Town'' ''town'', Clear] people) =
     (Inl KeyError, run [Add_column ''Town'' ''town'', Clear] people)"
proof -
  let ?t0 = "blank_table\<lparr>interface := people_interface, row_objects := people_rows\<rparr>"
  have not_created: "''city'' \<notin> snd ` set (zip (headings (interface ?t0)) (accessors (interface ?t0)))"
    by (simp add: people_interface_def blank_interface_def)
  have not_added: "\<forall>heading. Add_column heading ''city'' \<notin> set [Add_column ''Town'' ''town'', Clear]"
    by simp
  from remove_column_never_added [OF not_created not_added]
  show ?thesis by (simp add: people_def)
qed

subsection \<open>The selection handler\<close>

lemma ascending_indexes: "sort (remdups ix) = sorted_list_of_set (set ix)"
  by (simp add: sorted_list_of_set_sort_remdups)

lemma index_count_length: "index_count ix = length (sorted_list_of_set (set ix))"
  by (simp add: index_count_def flip: ascending_indexes)

lemma firstIndex_head:
  "firstIndex ix = (case sorted_list_of_set (set ix) of [] \<Rightarrow> NSNotFound | i # _ \<Rightarrow> i)"
  by (simp add: firstIndex_def ascending_indexes)

lemma filter_greater_strict:
  assumes "sorted_wrt (<) (pre @ c # rest)"
  shows "filter (\<lambda>j. c < j) (pre @ c # rest) = (rest :: nat list)"
proof -
  from assms have pre: "\<forall>x\<in>set pre. x < c" and rest: "\<forall>y\<in>set rest. c < y"
    by (auto simp: sorted_wrt_append)
  have "filter (\<lambda>j. c < j) pre = []" using pre by (auto simp: filter_empty_conv)
  moreover have "filter (\<lambda>j. c < j) rest = rest" using rest by (simp add: filter_id_conv)
  ultimately show ?thesis by simp
qed

lemma indexGreaterThanIndex_next:
  assumes "sorted_list_of_set (set ix) = pre @ c # rest"
  shows "indexGreaterThanIndex ix c = (case rest of [] \<Rightarrow> NSNotFound | j # _ \<Rightarrow> j)"
proof -
  have "sorted_wrt (<) (pre @ c # rest)"
    using assms strict_sorted_list_of_set[of "set ix"] by simp
  then have "filter (\<lambda>j. c < j) (sorted_list_of_set (set ix)) = rest"
    using assms filter_greater_strict by simp
  moreover have "sort (remdups (filter (\<lambda>j. c < j) ix)) = filter (\<lambda>j. c < j) (sort (remdups ix))"
    by (simp add: remdups_filter filter_sort)
  ultimately show ?thesis by (simp add: indexGreaterThanIndex_def ascending_indexes)
qed

lemma selected_rows_rest:
  assumes "sorted_list_of_set (set ix) = pre @ rest"
    and "\<forall>i\<in>set rest. i < length rs"
  shows "selected_rows (Some rs) ix (length rest) (case rest of [] \<Rightarrow> NSNotFound | i # _ \<Rightarrow> i) sel
           = Inr (sel @ map (\<lambda>i. rs ! i) rest)"
  using assms
proof (induction rest arbitrary: pre sel)
  case Nil
  then show ?case by simp
next
  case (Cons c rest)
  have c: "getitem (Some rs) (int c) = Inr (rs ! c)"
    using Cons.prems(2) by (simp add: getitem_def)
  have nxt: "indexGreaterThanIndex ix c = (case rest of [] \<Rightarrow> NSNotFound | j # _ \<Rightarrow> j)"
    using Cons.prems(1) by (rule indexGreaterThanIndex_next)
  have "selected_rows (Some rs) ix (length rest) (case rest of [] \<Rightarrow> NSNotFound | j # _ \<Rightarrow> j)
          (sel @ [rs ! c]) = Inr ((sel @ [rs ! c]) @ map (\<lambda>i. rs ! i) rest)"
    using Cons.prems by (intro Cons.IH[of "pre @ [c]"]) simp_all
  then show ?case using c nxt by simp
qed

lemma selected_rows_all:
  assumes "rs = (case d of None \<Rightarrow> [] | Some xs \<Rightarrow> xs)"
    and "\<forall>i\<in>set ix. i < length rs"
  shows "selected_rows d ix (index_count ix) (firstIndex ix) []
           = Inr (map (\<lambda>i. rs ! i) (sorted_list_of_set (set ix)))"
proof (cases d)
  case None
  then have "ix = []" using assms by (cases ix) auto
  then show ?thesis by (simp add: index_count_def)
next
  case (Some xs)
  then have rs: "d = Some rs" using assms(1) by simp
  have "\<forall>i\<in>set (sorted_list_of_set (set ix)). i < length rs" using assms(2) by simp
  from selected_rows_rest[of ix "[]" "sorted_list_of_set (set ix)" rs "[]", OF _ this]
  show ?thesis by (simp add: rs index_count_length firstIndex_head)
qed

lemma head_is_Min:
  assumes "ix \<noteq> []"
  shows "\<exists>rest. sorted_list_of_set (set ix) = Min (set ix) # rest"
proof -
  have ne: "set ix \<noteq> {}" using assms by simp
  then have "sorted_list_of_set (set ix) \<noteq> []" by simp
  then obtain i rest where ir: "sorted_list_of_set (set ix) = i # rest"
    by (cases "sorted_list_of_set (set ix)") auto
  have "sorted (i # rest)" using ir sorted_sorted_list_of_set[of "set ix"] by simp
  moreover have "set (i # rest) = set ix" using ir set_sorted_list_of_set[of "set ix"] by simp
  ultimately have "i = Min (set ix)"
    by (intro Min_eqI[symmetric]) auto
  then show ?thesis using ir by simp
qed

lemmas selection_defs = tableViewSelectionDidChange_def index_count_def firstIndex_def
  indexGreaterThanIndex_def getitem_def Let_def

text \<open>
  C2. When every selected index is an index of the data (as the toolkit has it), after a
  selection-change notification the selection stored on the interface is: under single
  selection, the row at the lowest selected index, or none when no index is selected;
  under multiple selection, the list of the selected rows in ascending order of index,
  empty when no index is selected.
\<close>

theorem selection_stored:
  assumes "rs = (case data (interface t) of None \<Rightarrow> [] | Some xs \<Rightarrow> xs)"
    and "\<forall>i\<in>set (selectedRowIndexes t). i < length rs"
  shows "selection (interface (snd (tableViewSelectionDidChange n t))) =
           (if multiple_select (interface t)
            then SelRows (map (\<lambda>i. rs ! i) (sorted_list_of_set (set (selectedRowIndexes t))))
            else if selectedRowIndexes t = [] then SelNone
            else SelRow (rs ! Min (set (selectedRowIndexes t))))"
proof -
  let ?ix = "selectedRowIndexes t"
  note sel = selected_rows_all[OF assms]
  show ?thesis
  proof (cases "?ix = []")
    case True
    then show ?thesis
      using sel by (simp add: tableViewSelectionDidChange_def Let_def split: sum.splits option.splits)
  next
    case False
    from head_is_Min[OF False] obtain rest where
      h: "sorted_list_of_set (set ?ix) = Min (set ?ix) # rest" by blast
    show ?thesis
      using sel False
      by (simp add: tableViewSelectionDidChange_def Let_def h split: sum.splits option.splits)
  qed
qed

theorem selection_stored_witness:
  "selection (interface (snd (tableViewSelectionDidChange \<lparr>object_selectedRow = 2\<rparr> people_multi)))
     = SelRows [10, 12]
   \<and> selection (interface (snd (tableViewSelectionDidChange \<lparr>object_selectedRow = 1\<rparr> people_single)))
     = SelRow 11"
proof -
  have rows: "[10, 11, 12] = (case data (interface people_multi) of None \<Rightarrow> [] | Some xs \<Rightarrow> xs)"
    "[10, 11, 12] = (case data (interface people_single) of None \<Rightarrow> [] | Some xs \<Rightarrow> xs)"
    by (simp_all add: people_multi_def people_single_def people_defs)
  have multi: "\<forall>i\<in>set (selectedRowIndexes people_multi). i < length [10, 11, 12 :: nat]"
    by (simp add: people_multi_def)
  have single: "\<forall>i\<in>set (selectedRowIndexes people_single). i < length [10, 11, 12 :: nat]"
    by (simp add: people_single_def)
  from selection_stored [OF rows(1) multi, of "\<lparr>object_selectedRow = 2\<rparr>"]
    selection_stored [OF rows(2) single, of "\<lparr>object_selectedRow = 1\<rparr>"]
  show ?thesis
    by (simp add: people_multi_def people_single_def people_defs
        sorted_list_of_set_sort_remdups)
qed

text \<open>
  C3. When every selected index is an index of the data and the active row of the
  notification's view is \<open>-1\<close> or an index of the data, the handler returns, and it has
  called the registered \<^verbatim>\<open>on_select\<close> exactly once (no call when none is registered), with
  the row at the active index, or with none when that index is \<open>-1\<close>. The argument is
  read from the active row alone: with any other selected indexes and either setting of
  multiple selection the same call is made, so it can differ from the selection stored
  by the same handler.
\<close>

theorem on_select_called:
  assumes "rs = (case data (interface t) of None \<Rightarrow> [] | Some xs \<Rightarrow> xs)"
    and "\<forall>i\<in>set (selectedRowIndexes t). i < length rs"
    and "object_selectedRow n = - 1
         \<or> (0 \<le> object_selectedRow n \<and> object_selectedRow n < int (length rs))"
  shows "fst (tableViewSelectionDidChange n t) = Inr ()
       \<and> on_select_calls (snd (tableViewSelectionDidChange n t)) =
           on_select_calls t @
             (case on_select (interface t) of
                None \<Rightarrow> []
              | Some handler \<Rightarrow>
                  [(handler, if object_selectedRow n = - 1 then None
                             else Some (rs ! nat (object_selectedRow n)))])
       \<and> (\<forall>ix m. (\<forall>i\<in>set ix. i < length rs) \<longrightarrow>
             on_select_calls
               (snd (tableViewSelectionDidChange n
                  (t\<lparr>selectedRowIndexes := ix,
                     interface := (interface t)\<lparr>multiple_select := m\<rparr>\<rparr>))) =
             on_select_calls (snd (tableViewSelectionDidChange n t)))"
proof -
  have calls: "fst (tableViewSelectionDidChange n u) = Inr ()
       \<and> on_select_calls (snd (tableViewSelectionDidChange n u)) =
           on_select_calls u @
             (case on_select (interface u) of
                None \<Rightarrow> []
              | Some handler \<Rightarrow>
                  [(handler, if object_selectedRow n = - 1 then None
                             else Some (rs ! nat (object_selectedRow n)))])"
    if u: "rs = (case data (interface u) of None \<Rightarrow> [] | Some xs \<Rightarrow> xs)"
      "\<forall>i\<in>set (selectedRowIndexes u). i < length rs" for u
  proof -
    note sel = selected_rows_all[OF u]
    have g: "object_selectedRow n \<noteq> - 1 \<Longrightarrow>
        getitem (data (interface u)) (object_selectedRow n) = Inr (rs ! nat (object_selectedRow n))"
      using u(1) assms(3) by (auto simp: getitem_def split: option.splits)
    show ?thesis
      using sel g
      by (cases "object_selectedRow n = - 1")
        (simp_all add: tableViewSelectionDidChange_def Let_def split: option.splits)
  qed
  have other: "on_select_calls
               (snd (tableViewSelectionDidChange n
                  (t\<lparr>selectedRowIndexes := ix,
                     interface := (interface t)\<lparr>multiple_select := m\<rparr>\<rparr>))) =
             on_select_calls (snd (tableViewSelectionDidChange n t))"
    if "\<forall>i\<in>set ix. i < length rs" for ix m
    using calls[of "t\<lparr>selectedRowIndexes := ix, interface := (interface t)\<lparr>multiple_select := m\<rparr>\<rparr>"]
      calls[of t] assms(1,2) that
    by simp
  show ?thesis using calls[OF assms(1,2)] other by blast
qed

text \<open>
  With the rows at the indexes 0 and 2 selected and the row at index 2 active, the
  handler is called with the row at address 12 alone, while the selection stored is the
  list of the rows at the addresses 10 and 12.
\<close>

theorem on_select_called_witness:
  "fst (tableViewSelectionDidChange \<lparr>object_selectedRow = 2\<rparr> people_multi) = Inr ()
   \<and> on_select_calls (snd (tableViewSelectionDidChange \<lparr>object_selectedRow = 2\<rparr> people_multi))
     = [(''on_select'', Some 12)]
   \<and> selection (interface (snd (tableViewSelectionDidChange \<lparr>object_selectedRow = 2\<rparr> people_multi)))
     = SelRows [10, 12]"
proof -
  have rows: "[10, 11, 12] = (case data (interface people_multi) of None \<Rightarrow> [] | Some xs \<Rightarrow> xs)"
    by (simp add: people_multi_def people_defs)
  have selected: "\<forall>i\<in>set (selectedRowIndexes people_multi). i < length [10, 11, 12 :: nat]"
    by (simp add: people_multi_def)
  have active: "object_selectedRow \<lparr>object_selectedRow = 2\<rparr> = - 1
      \<or> (0 \<le> object_selectedRow \<lparr>object_selectedRow = 2\<rparr>
          \<and> object_selectedRow \<lparr>object_selectedRow = 2\<rparr> < int (length [10, 11, 12 :: nat]))"
    by simp
  from on_select_called [OF rows selected active] show ?thesis
    by (simp add: people_multi_def people_defs selection_defs)
qed

end
